theory Spec2Isabelle
  imports Complex_Main
begin

section \<open>Deconflict: trajectory segments and spatio-temporal conflict detection\<close>

text \<open>
  The embedding follows \<^verbatim>\<open>data_models.py\<close>, \<^verbatim>\<open>trajectory.py\<close>, \<^verbatim>\<open>detector.py\<close> and
  \<^verbatim>\<open>detector_enhanced.py\<close>. The arithmetic of the builder and the detector is modelled on
  \<^typ>\<open>real\<close>, without rounding. Where rounding or NaN decides what the code does, the
  code is modelled with them: the constructor's guards compare Python floats, NaN and the
  infinities included, and the segment builder is given a second time with every float
  operation rounded, to binary64 in particular. The one infinity the detector uses, the
  initial \<^verbatim>\<open>min_distance = float('inf')\<close>, is the value \<^term>\<open>None\<close> of the tracker.
  A numpy array of coordinates is a \<^typ>\<open>real list\<close>. Exceptions are values of the type
  \<open>error\<close> on the left of a sum.
\<close>

subsection \<open>Errors\<close>

text \<open>
  \<open>TooFewWaypoints\<close>, \<open>BadTimeWindow\<close> and \<open>NonPositiveSpeed\<close> are the three
  \<^verbatim>\<open>ValueError\<close>s of \<^verbatim>\<open>Flight.__post_init__\<close>; \<open>TimeOutOfBounds\<close> is the \<^verbatim>\<open>ValueError\<close> of
  \<^verbatim>\<open>Segment.position_at_time\<close>; \<open>NegativeSampleCount\<close> is the \<^verbatim>\<open>ValueError\<close> of
  \<^verbatim>\<open>np.linspace\<close> for a negative number of samples; \<open>DivisionByZero\<close> stands for a division
  whose divisor is zero (a \<^verbatim>\<open>ZeroDivisionError\<close> on Python floats, an infinity or NaN on
  numpy floats); \<open>IndexError\<close> is a list read out of range.
\<close>

datatype error =
    TooFewWaypoints
  | BadTimeWindow
  | NonPositiveSpeed
  | TimeOutOfBounds
  | NegativeSampleCount
  | DivisionByZero
  | IndexError

subsection \<open>Data model (\<^verbatim>\<open>data_models.py\<close>)\<close>

record Waypoint =
  wp_x :: real
  wp_y :: real
  wp_z :: real

record Flight =
  flight_ident :: string
  waypoints :: "Waypoint list"
  mission_t_start :: real
  mission_t_end :: real
  speed :: real

record Segment =
  seg_start :: Waypoint
  seg_end :: Waypoint
  t_start :: real
  t_end :: real
  flight_id :: string

record Conflict =
  primary_flight_id :: string
  conflicting_flight_id :: string
  location :: "real list"
  conflict_time :: real
  min_distance :: real
  safety_buffer :: real

text \<open>\<^verbatim>\<open>Waypoint.to_array\<close>: two or three coordinates.\<close>

definition to_array :: "Waypoint \<Rightarrow> bool \<Rightarrow> real list" where
  "to_array w include_z =
     (if include_z then [wp_x w, wp_y w, wp_z w] else [wp_x w, wp_y w])"

text \<open>The numpy operations the code uses on coordinate arrays of equal shape.\<close>

definition arr_sub :: "real list \<Rightarrow> real list \<Rightarrow> real list" where
  "arr_sub a b = map2 (\<lambda>p q. p - q) a b"

definition arr_add :: "real list \<Rightarrow> real list \<Rightarrow> real list" where
  "arr_add a b = map2 (\<lambda>p q. p + q) a b"

definition arr_scale :: "real \<Rightarrow> real list \<Rightarrow> real list" where
  "arr_scale alpha a = map (\<lambda>p. alpha * p) a"

text \<open>\<^verbatim>\<open>np.linalg.norm\<close> of a one-dimensional array: the Euclidean norm.\<close>

definition linalg_norm :: "real list \<Rightarrow> real" where
  "linalg_norm a = sqrt (sum_list (map (\<lambda>p. p * p) a))"

text \<open>A float division; the divisor zero is an error of the model.\<close>

definition fdiv :: "real \<Rightarrow> real \<Rightarrow> error + real" where
  "fdiv a b = (if b = 0 then Inl DivisionByZero else Inr (a / b))"

text \<open>
  The values a Python float can take where the code only compares it: a real number, an
  infinity or NaN. \<open>py_less a b\<close> is \<^verbatim>\<open>a < b\<close> and \<open>py_le a b\<close> is \<^verbatim>\<open>a <= b\<close>; Python's
  \<^verbatim>\<open>a >= b\<close> is \<open>py_le b a\<close>. Every comparison with NaN is false.
\<close>

datatype pyfloat = NegInf | Num real | PosInf | NaN

fun py_less :: "pyfloat \<Rightarrow> pyfloat \<Rightarrow> bool" where
  "py_less NaN b = False"
| "py_less a NaN = False"
| "py_less a NegInf = False"
| "py_less NegInf b = True"
| "py_less PosInf b = False"
| "py_less (Num a) PosInf = True"
| "py_less (Num a) (Num b) = (a < b)"

fun py_le :: "pyfloat \<Rightarrow> pyfloat \<Rightarrow> bool" where
  "py_le NaN b = False"
| "py_le a NaN = False"
| "py_le NegInf b = True"
| "py_le a PosInf = True"
| "py_le PosInf b = False"
| "py_le (Num a) NegInf = False"
| "py_le (Num a) (Num b) = (a \<le> b)"

text \<open>
  The dataclass instance as the constructor stores it, its three numeric fields being
  whatever floats the caller passed.
\<close>

record Flight_object =
  object_id :: string
  object_waypoints :: "Waypoint list"
  object_t_start :: pyfloat
  object_t_end :: pyfloat
  object_speed :: pyfloat

text \<open>
  \<^verbatim>\<open>Flight.__post_init__\<close>: the dataclass constructor stores the five fields, then validates
  them in this order, with the comparisons \<^verbatim>\<open>self.t_start >= self.t_end\<close> and
  \<^verbatim>\<open>self.speed <= 0\<close>.
\<close>

definition Flight_init ::
  "string \<Rightarrow> Waypoint list \<Rightarrow> pyfloat \<Rightarrow> pyfloat \<Rightarrow> pyfloat \<Rightarrow> error + Flight_object" where
  "Flight_init ident wps ts te sp =
     (if length wps < 2 then Inl TooFewWaypoints
      else if py_le te ts then Inl BadTimeWindow
      else if py_le sp (Num 0) then Inl NonPositiveSpeed
      else Inr \<lparr>object_id = ident, object_waypoints = wps, object_t_start = ts,
                object_t_end = te, object_speed = sp\<rparr>)"

text \<open>\<^verbatim>\<open>Flight.is_3d\<close>: some waypoint has a non-zero altitude.\<close>

definition is_3d :: "Flight \<Rightarrow> bool" where
  "is_3d f = list_ex (\<lambda>wp. wp_z wp \<noteq> 0) (waypoints f)"

text \<open>\<^verbatim>\<open>Segment.position_at_time\<close>.\<close>

definition position_at_time :: "Segment \<Rightarrow> real \<Rightarrow> bool \<Rightarrow> error + real list" where
  "position_at_time seg t include_z =
     (if t < t_start seg \<or> t > t_end seg then Inl TimeOutOfBounds
      else if t_start seg = t_end seg then Inr (to_array (seg_start seg) include_z)
      else (case fdiv (t - t_start seg) (t_end seg - t_start seg) of
              Inl e \<Rightarrow> Inl e
            | Inr alpha \<Rightarrow>
                (let start_pos = to_array (seg_start seg) include_z;
                     end_pos = to_array (seg_end seg) include_z
                 in Inr (arr_add start_pos (arr_scale alpha (arr_sub end_pos start_pos))))))"

text \<open>
  The three invariants of a Mission, for a flight whose times and speed are real numbers.
\<close>

definition valid_flight :: "Flight \<Rightarrow> bool" where
  "valid_flight f \<longleftrightarrow>
     2 \<le> length (waypoints f) \<and> mission_t_start f < mission_t_end f \<and> 0 < speed f"

subsection \<open>numpy's \<^verbatim>\<open>linspace\<close>\<close>

text \<open>
  \<^verbatim>\<open>np.linspace(start, stop, num)\<close> with the default \<^verbatim>\<open>endpoint=True\<close>, as numpy documents and
  implements it: a negative \<^verbatim>\<open>num\<close> raises; otherwise the result has \<^verbatim>\<open>num\<close> entries
  \<^verbatim>\<open>start + i * step\<close> with \<^verbatim>\<open>step = (stop - start) / (num - 1)\<close>, numpy guards the case
  \<^verbatim>\<open>num = 1\<close> itself (the single entry is \<^verbatim>\<open>start\<close>), and for \<^verbatim>\<open>num > 1\<close> the last entry is
  overwritten with \<^verbatim>\<open>stop\<close>.
\<close>

definition linspace :: "real \<Rightarrow> real \<Rightarrow> int \<Rightarrow> error + real list" where
  "linspace start stop num =
     (if num < 0 then Inl NegativeSampleCount
      else if num = 1 then Inr [start]
      else (let n = nat num; step = (stop - start) / real (n - 1)
            in Inr (map (\<lambda>i. if i = n - 1 then stop else start + real i * step) [0..<n])))"

subsection \<open>Segment builder (\<^verbatim>\<open>trajectory.py\<close>)\<close>

text \<open>The first loop of \<^verbatim>\<open>compute_segment_times\<close>: the length of every leg.\<close>

definition leg_lengths :: "Flight \<Rightarrow> real list" where
  "leg_lengths flight =
     map (\<lambda>i. let start = to_array (waypoints flight ! i) (is_3d flight);
                   end_pos = to_array (waypoints flight ! (i + 1)) (is_3d flight)
               in linalg_norm (arr_sub end_pos start))
         [0..<length (waypoints flight) - 1]"

text \<open>
  The second loop of \<^verbatim>\<open>compute_segment_times\<close>, over \<^verbatim>\<open>lengths[:-1]\<close>, with its two
  variables \<^verbatim>\<open>cumulative_time\<close> and \<^verbatim>\<open>times\<close>.
\<close>

fun allocate_times ::
  "real \<Rightarrow> real \<Rightarrow> real \<Rightarrow> real list \<Rightarrow> real list \<Rightarrow> error + real list" where
  "allocate_times total_length total_duration cumulative_time tms [] = Inr tms"
| "allocate_times total_length total_duration cumulative_time tms (l # ls) =
     (case fdiv l total_length of
        Inl e \<Rightarrow> Inl e
      | Inr share \<Rightarrow>
          (let time_for_segment = share * total_duration;
               cumulative = cumulative_time + time_for_segment
           in allocate_times total_length total_duration cumulative (tms @ [cumulative]) ls))"

definition compute_segment_times :: "Flight \<Rightarrow> error + real list" where
  "compute_segment_times flight =
     (let n_waypoints = length (waypoints flight);
          lengths = leg_lengths flight;
          total_length = sum_list lengths
      in if total_length = 0
         then linspace (mission_t_start flight) (mission_t_end flight) (int n_waypoints)
         else (case allocate_times total_length
                      (mission_t_end flight - mission_t_start flight)
                      (mission_t_start flight) [mission_t_start flight] (butlast lengths) of
                 Inl e \<Rightarrow> Inl e
               | Inr tms \<Rightarrow> Inr (tms @ [mission_t_end flight])))"

text \<open>
  The loop of \<^verbatim>\<open>build_segments\<close> over \<^verbatim>\<open>range(len(flight.waypoints) - 1)\<close>; the reads
  \<^verbatim>\<open>flight.waypoints[i + 1]\<close> and \<^verbatim>\<open>times[i + 1]\<close> raise when out of range.
\<close>

fun build_loop ::
  "Flight \<Rightarrow> real list \<Rightarrow> nat list \<Rightarrow> Segment list \<Rightarrow> error + Segment list" where
  "build_loop flight tms [] segments = Inr segments"
| "build_loop flight tms (i # is) segments =
     (if i + 1 < length (waypoints flight) \<and> i + 1 < length tms
      then build_loop flight tms is
             (segments @ [\<lparr>seg_start = waypoints flight ! i,
                           seg_end = waypoints flight ! (i + 1),
                           t_start = tms ! i,
                           t_end = tms ! (i + 1),
                           flight_id = flight_ident flight\<rparr>])
      else Inl IndexError)"

definition build_segments :: "Flight \<Rightarrow> error + Segment list" where
  "build_segments flight =
     (case compute_segment_times flight of
        Inl e \<Rightarrow> Inl e
      | Inr tms \<Rightarrow> build_loop flight tms [0..<length (waypoints flight) - 1] [])"

subsection \<open>The segment builder on rounded arithmetic\<close>

text \<open>
  Rounding of a real number to the nearest integer, ties to the even one.
\<close>

definition round_half_even :: "real \<Rightarrow> int" where
  "round_half_even r =
     (let f = \<lfloor>r\<rfloor>
      in if r - of_int f < 1 / 2 then f
         else if 1 / 2 < r - of_int f then f + 1
         else if even f then f else f + 1)"

text \<open>The power of two with an integer exponent.\<close>

definition pow2 :: "int \<Rightarrow> real" where
  "pow2 e = (if 0 \<le> e then 2 ^ nat e else 1 / 2 ^ nat (- e))"

text \<open>
  IEEE 754 binary64 rounding, to nearest with ties to even: the exponent of the binade of
  \<open>x\<close>, held at - 1022 for the subnormal numbers, and \<open>x\<close> rounded to a multiple of
  2 to the power of that exponent minus 52. Overflow to an infinity is not modelled.
\<close>

definition double_exponent :: "real \<Rightarrow> int" where
  "double_exponent x = max \<lfloor>log 2 \<bar>x\<bar>\<rfloor> (- 1022)"

definition double_round :: "real \<Rightarrow> real" where
  "double_round x =
     (if x = 0 then 0
      else (let u = pow2 (double_exponent x - 52)
            in of_int (round_half_even (x / u)) * u))"

text \<open>
  The arithmetic of \<^verbatim>\<open>compute_segment_times\<close> once more, every float operation of the code
  followed by the rounding \<open>rnd\<close>: the subtraction of the coordinate arrays, the norm (each
  product, each partial sum and the square root rounded), Python's \<^verbatim>\<open>sum\<close>, numpy's
  \<^verbatim>\<open>linspace\<close> (with its fallback for a step that rounds to zero), the loop over
  \<^verbatim>\<open>lengths[:-1]\<close> and the function itself. The times and coordinates of the flight are
  taken to be floats already.
\<close>

definition arr_sub_rounded :: "(real \<Rightarrow> real) \<Rightarrow> real list \<Rightarrow> real list \<Rightarrow> real list" where
  "arr_sub_rounded rnd a b = map2 (\<lambda>p q. rnd (p - q)) a b"

definition linalg_norm_rounded :: "(real \<Rightarrow> real) \<Rightarrow> real list \<Rightarrow> real" where
  "linalg_norm_rounded rnd a = rnd (sqrt (foldl (\<lambda>s p. rnd (s + rnd (p * p))) 0 a))"

definition sum_rounded :: "(real \<Rightarrow> real) \<Rightarrow> real list \<Rightarrow> real" where
  "sum_rounded rnd ls = foldl (\<lambda>s l. rnd (s + l)) 0 ls"

definition linspace_rounded :: "(real \<Rightarrow> real) \<Rightarrow> real \<Rightarrow> real \<Rightarrow> int \<Rightarrow> error + real list" where
  "linspace_rounded rnd start stop num =
     (if num < 0 then Inl NegativeSampleCount
      else if num = 1 then Inr [start]
      else (let n = nat num; delta = rnd (stop - start); step = rnd (delta / real (n - 1))
            in Inr (map (\<lambda>i. if i = n - 1 then stop
                              else if step = 0
                                then rnd (rnd (rnd (real i / real (n - 1)) * delta) + start)
                                else rnd (rnd (real i * step) + start))
                        [0..<n])))"

definition leg_lengths_rounded :: "(real \<Rightarrow> real) \<Rightarrow> Flight \<Rightarrow> real list" where
  "leg_lengths_rounded rnd flight =
     map (\<lambda>i. let start = to_array (waypoints flight ! i) (is_3d flight);
                   end_pos = to_array (waypoints flight ! (i + 1)) (is_3d flight)
               in linalg_norm_rounded rnd (arr_sub_rounded rnd end_pos start))
         [0..<length (waypoints flight) - 1]"

fun allocate_times_rounded ::
  "(real \<Rightarrow> real) \<Rightarrow> real \<Rightarrow> real \<Rightarrow> real \<Rightarrow> real list \<Rightarrow> real list \<Rightarrow> error + real list" where
  "allocate_times_rounded rnd total_length total_duration cumulative_time tms [] = Inr tms"
| "allocate_times_rounded rnd total_length total_duration cumulative_time tms (l # ls) =
     (case fdiv l total_length of
        Inl e \<Rightarrow> Inl e
      | Inr share \<Rightarrow>
          (let time_for_segment = rnd (rnd share * total_duration);
               cumulative = rnd (cumulative_time + time_for_segment)
           in allocate_times_rounded rnd total_length total_duration cumulative
                (tms @ [cumulative]) ls))"

definition compute_segment_times_rounded :: "(real \<Rightarrow> real) \<Rightarrow> Flight \<Rightarrow> error + real list" where
  "compute_segment_times_rounded rnd flight =
     (let n_waypoints = length (waypoints flight);
          lengths = leg_lengths_rounded rnd flight;
          total_length = sum_rounded rnd lengths
      in if total_length = 0
         then linspace_rounded rnd (mission_t_start flight) (mission_t_end flight)
                (int n_waypoints)
         else (case allocate_times_rounded rnd total_length
                      (rnd (mission_t_end flight - mission_t_start flight))
                      (mission_t_start flight) [mission_t_start flight] (butlast lengths) of
                 Inl e \<Rightarrow> Inl e
               | Inr tms \<Rightarrow> Inr (tms @ [mission_t_end flight])))"

definition build_segments_rounded :: "(real \<Rightarrow> real) \<Rightarrow> Flight \<Rightarrow> error + Segment list" where
  "build_segments_rounded rnd flight =
     (case compute_segment_times_rounded rnd flight of
        Inl e \<Rightarrow> Inl e
      | Inr tms \<Rightarrow> build_loop flight tms [0..<length (waypoints flight) - 1] [])"

subsection \<open>Conflict detector (\<^verbatim>\<open>detector.py\<close>)\<close>

definition time_windows_overlap :: "real \<Rightarrow> real \<Rightarrow> real \<Rightarrow> real \<Rightarrow> bool" where
  "time_windows_overlap t1_start t1_end t2_start t2_end \<longleftrightarrow>
     \<not> (t1_end < t2_start \<or> t2_end < t1_start)"

definition compute_overlap_window ::
  "real \<Rightarrow> real \<Rightarrow> real \<Rightarrow> real \<Rightarrow> (real \<times> real) option" where
  "compute_overlap_window t1_start t1_end t2_start t2_end =
     (if \<not> time_windows_overlap t1_start t1_end t2_start t2_end then None
      else Some (max t1_start t2_start, min t1_end t2_end))"

text \<open>
  The three loop variables \<^verbatim>\<open>min_distance\<close>, \<^verbatim>\<open>conflict_time\<close> and
  \<^verbatim>\<open>conflict_location\<close> are assigned together: \<^term>\<open>None\<close> is their initial state
  (infinity, \<^verbatim>\<open>None\<close>, \<^verbatim>\<open>None\<close>), \<^term>\<open>Some (d, t, p)\<close> the state after an assignment.
\<close>

type_synonym tracker = "(real \<times> real \<times> real list) option"

text \<open>The comparison \<^verbatim>\<open>distance < min_distance\<close> of the loop body.\<close>

definition improves :: "real \<Rightarrow> tracker \<Rightarrow> bool" where
  "improves distance tr = (case tr of None \<Rightarrow> True | Some (m, _, _) \<Rightarrow> distance < m)"

text \<open>
  The first three statements of the loop body: both positions at time \<open>t\<close> and their
  distance. The result is the primary position and the distance.
\<close>

definition sample_at :: "Segment \<Rightarrow> Segment \<Rightarrow> bool \<Rightarrow> real \<Rightarrow> error + (real list \<times> real)" where
  "sample_at seg1 seg2 include_z t =
     (case position_at_time seg1 t include_z of
        Inl e \<Rightarrow> Inl e
      | Inr pos1 \<Rightarrow>
          (case position_at_time seg2 t include_z of
             Inl e \<Rightarrow> Inl e
           | Inr pos2 \<Rightarrow> Inr (pos1, linalg_norm (arr_sub pos1 pos2))))"

text \<open>The loop \<^verbatim>\<open>for t in time_points\<close> of \<^verbatim>\<open>segment_conflict\<close>.\<close>

fun sample_loop :: "Segment \<Rightarrow> Segment \<Rightarrow> bool \<Rightarrow> real list \<Rightarrow> tracker \<Rightarrow> error + tracker" where
  "sample_loop seg1 seg2 include_z [] tr = Inr tr"
| "sample_loop seg1 seg2 include_z (t # ts) tr =
     (case sample_at seg1 seg2 include_z t of
        Inl e \<Rightarrow> Inl e
      | Inr (pos1, distance) \<Rightarrow>
          (if improves distance tr
           then sample_loop seg1 seg2 include_z ts (Some (distance, t, pos1))
           else sample_loop seg1 seg2 include_z ts tr))"

text \<open>
  The sampling part of \<^verbatim>\<open>segment_conflict\<close>, from \<^verbatim>\<open>np.linspace\<close> to the end of the loop:
  the tracked minimum over the overlap window.
\<close>

definition sampled_minimum ::
  "Segment \<Rightarrow> Segment \<Rightarrow> bool \<Rightarrow> int \<Rightarrow> real \<Rightarrow> real \<Rightarrow> error + tracker" where
  "sampled_minimum seg1 seg2 include_z time_samples overlap_start overlap_end =
     (case linspace overlap_start overlap_end time_samples of
        Inl e \<Rightarrow> Inl e
      | Inr time_points \<Rightarrow> sample_loop seg1 seg2 include_z time_points None)"

text \<open>The final test of \<^verbatim>\<open>segment_conflict\<close>: \<^verbatim>\<open>min_distance < safety_buffer\<close>.\<close>

definition report :: "Segment \<Rightarrow> Segment \<Rightarrow> real \<Rightarrow> tracker \<Rightarrow> Conflict option" where
  "report seg1 seg2 buffer tr =
     (case tr of
        None \<Rightarrow> None
      | Some (m, t, p) \<Rightarrow>
          (if m < buffer
           then Some \<lparr>primary_flight_id = flight_id seg1,
                      conflicting_flight_id = flight_id seg2,
                      location = p, conflict_time = t, min_distance = m,
                      safety_buffer = buffer\<rparr>
           else None))"

definition segment_conflict ::
  "Segment \<Rightarrow> Segment \<Rightarrow> real \<Rightarrow> bool \<Rightarrow> int \<Rightarrow> error + Conflict option" where
  "segment_conflict seg1 seg2 buffer include_z time_samples =
     (case compute_overlap_window (t_start seg1) (t_end seg1) (t_start seg2) (t_end seg2) of
        None \<Rightarrow> Inr None
      | Some (overlap_start, overlap_end) \<Rightarrow>
          (case sampled_minimum seg1 seg2 include_z time_samples overlap_start overlap_end of
             Inl e \<Rightarrow> Inl e
           | Inr tr \<Rightarrow> Inr (report seg1 seg2 buffer tr)))"





subsection \<open>Enhanced detector (\<^verbatim>\<open>detector_enhanced.py\<close>)\<close>

text \<open>The module has its own copies of the two window functions.\<close>

definition time_windows_overlap_enhanced :: "real \<Rightarrow> real \<Rightarrow> real \<Rightarrow> real \<Rightarrow> bool" where
  "time_windows_overlap_enhanced t1_start t1_end t2_start t2_end \<longleftrightarrow>
     \<not> (t1_end < t2_start \<or> t2_end < t1_start)"

definition compute_overlap_window_enhanced ::
  "real \<Rightarrow> real \<Rightarrow> real \<Rightarrow> real \<Rightarrow> (real \<times> real) option" where
  "compute_overlap_window_enhanced t1_start t1_end t2_start t2_end =
     (if \<not> time_windows_overlap_enhanced t1_start t1_end t2_start t2_end then None
      else Some (max t1_start t2_start, min t1_end t2_end))"

text \<open>The loop of \<^verbatim>\<open>segment_conflict_high_accuracy\<close>, written out from its own text.\<close>

fun high_accuracy_loop ::
  "Segment \<Rightarrow> Segment \<Rightarrow> bool \<Rightarrow> real list \<Rightarrow> tracker \<Rightarrow> error + tracker" where
  "high_accuracy_loop seg1 seg2 include_z [] tr = Inr tr"
| "high_accuracy_loop seg1 seg2 include_z (t # ts) tr =
     (case position_at_time seg1 t include_z of
        Inl e \<Rightarrow> Inl e
      | Inr pos1 \<Rightarrow>
          (case position_at_time seg2 t include_z of
             Inl e \<Rightarrow> Inl e
           | Inr pos2 \<Rightarrow>
               (let distance = linalg_norm (arr_sub pos1 pos2)
                in if (case tr of None \<Rightarrow> True | Some (m, _, _) \<Rightarrow> distance < m)
                   then high_accuracy_loop seg1 seg2 include_z ts (Some (distance, t, pos1))
                   else high_accuracy_loop seg1 seg2 include_z ts tr)))"

definition segment_conflict_high_accuracy ::
  "Segment \<Rightarrow> Segment \<Rightarrow> real \<Rightarrow> bool \<Rightarrow> int \<Rightarrow> error + Conflict option" where
  "segment_conflict_high_accuracy seg1 seg2 buffer include_z time_samples =
     (case compute_overlap_window_enhanced
             (t_start seg1) (t_end seg1) (t_start seg2) (t_end seg2) of
        None \<Rightarrow> Inr None
      | Some (overlap_start, overlap_end) \<Rightarrow>
          (case linspace overlap_start overlap_end time_samples of
             Inl e \<Rightarrow> Inl e
           | Inr time_points \<Rightarrow>
               (case high_accuracy_loop seg1 seg2 include_z time_points None of
                  Inl e \<Rightarrow> Inl e
                | Inr None \<Rightarrow> Inr None
                | Inr (Some (m, t, p)) \<Rightarrow>
                    (if m < buffer
                     then Inr (Some \<lparr>primary_flight_id = flight_id seg1,
                                      conflicting_flight_id = flight_id seg2,
                                      location = p, conflict_time = t, min_distance = m,
                                      safety_buffer = buffer\<rparr>)
                     else Inr None))))"

text \<open>The backward-compatible \<^verbatim>\<open>segment_conflict\<close> of \<^verbatim>\<open>detector_enhanced.py\<close>.\<close>

definition segment_conflict_enhanced ::
  "Segment \<Rightarrow> Segment \<Rightarrow> real \<Rightarrow> bool \<Rightarrow> int \<Rightarrow> error + Conflict option" where
  "segment_conflict_enhanced seg1 seg2 buffer include_z time_samples =
     segment_conflict_high_accuracy seg1 seg2 buffer include_z time_samples"


subsection \<open>Orders of the aggregate conflict list\<close>






subsection \<open>Concrete scenarios\<close>

text \<open>\<^verbatim>\<open>Waypoint(x, y)\<close>, the altitude taking its default 0.\<close>

definition waypoint_2d :: "real \<Rightarrow> real \<Rightarrow> Waypoint" where
  "waypoint_2d a b = \<lparr>wp_x = a, wp_y = b, wp_z = 0\<rparr>"

text \<open>Scenario 4 of the specification: three coincident waypoints over the window 0 to 10.\<close>

definition coincident_mission :: Flight where
  "coincident_mission =
     \<lparr>flight_ident = ''P'',
      waypoints = [waypoint_2d 5 5, waypoint_2d 5 5, waypoint_2d 5 5],
      mission_t_start = 0, mission_t_end = 10, speed = 5\<rparr>"



text \<open>
  A segment that moves along the x axis from 0 to 6 during the window 0 to 6, a segment
  parked at x = 3 for the same window, and a segment whose end time is before its start time.
\<close>

definition moving_segment :: Segment where
  "moving_segment =
     \<lparr>seg_start = waypoint_2d 0 0, seg_end = waypoint_2d 6 0, t_start = 0, t_end = 6,
      flight_id = ''P''\<rparr>"

definition parked_segment :: Segment where
  "parked_segment =
     \<lparr>seg_start = waypoint_2d 3 0, seg_end = waypoint_2d 3 0, t_start = 0, t_end = 6,
      flight_id = ''S''\<rparr>"


text \<open>A segment of zero duration.\<close>

definition instant_segment :: Segment where
  "instant_segment =
     \<lparr>seg_start = waypoint_2d 1 2, seg_end = waypoint_2d 7 8, t_start = 5, t_end = 5,
      flight_id = ''I''\<rparr>"



text \<open>
  A valid mission whose last leg has length zero, with the window from 0.3 to 0.9: its
  start and end times are the binary64 floats nearest to 0.3 and 0.9.
\<close>

definition drift_mission :: Flight where
  "drift_mission =
     \<lparr>flight_ident = ''D'',
      waypoints = [waypoint_2d 0 0, waypoint_2d 10 0, waypoint_2d 10 0],
      mission_t_start = 5404319552844595 / 18014398509481984,
      mission_t_end = 8106479329266893 / 9007199254740992, speed = 5\<rparr>"

section \<open>Properties\<close>

subsection \<open>Mission construction\<close>

text \<open>
  For times and a speed that are not NaN, construction fails exactly when the invariants of
  a Mission are violated.
\<close>

lemma py_le_not_less: "a \<noteq> NaN \<Longrightarrow> b \<noteq> NaN \<Longrightarrow> py_le b a \<longleftrightarrow> \<not> py_less a b"
  by (cases a; cases b) auto

lemma Flight_init_numbers:
  assumes "ts \<noteq> NaN" "te \<noteq> NaN" "sp \<noteq> NaN"
  shows "(\<exists>e. Flight_init ident wps ts te sp = Inl e) \<longleftrightarrow>
           length wps < 2 \<or> \<not> py_less ts te \<or> \<not> py_less (Num 0) sp"
  using assms py_le_not_less[of ts te] py_le_not_less[of "Num 0" sp]
  by (auto simp: Flight_init_def)

text \<open>
  Claim C8. With NaN as the speed, or NaN as the start time, both guards of
  \<^verbatim>\<open>Flight.__post_init__\<close> are false and the Flight is constructed, although the speed is not
  strictly positive and the start time is not strictly less than the end time.
\<close>

theorem Flight_init_accepts_nan:
  "Flight_init ''F'' [waypoint_2d 0 0, waypoint_2d 10 0] (Num 0) (Num 10) NaN =
     Inr \<lparr>object_id = ''F'', object_waypoints = [waypoint_2d 0 0, waypoint_2d 10 0],
          object_t_start = Num 0, object_t_end = Num 10, object_speed = NaN\<rparr> \<and>
   \<not> py_less (Num 0) NaN \<and>
   Flight_init ''F'' [waypoint_2d 0 0, waypoint_2d 10 0] NaN (Num 10) (Num 5) =
     Inr \<lparr>object_id = ''F'', object_waypoints = [waypoint_2d 0 0, waypoint_2d 10 0],
          object_t_start = NaN, object_t_end = Num 10, object_speed = Num 5\<rparr> \<and>
   \<not> py_less NaN (Num 10)"
  by (simp add: Flight_init_def)

subsection \<open>Position interpolation\<close>

text \<open>
  Claim C5. \<^verbatim>\<open>position_at_time\<close> fails if and only if the timestamp is before the segment's
  start time or after its end time. For a segment of zero duration it returns the start
  position at every timestamp in range. Otherwise it returns, for each of the two or three
  coordinates requested, start + ((t - t_start) / (t_end - t_start)) * (end - start).
\<close>

theorem position_at_time_cases:
  "((\<exists>e. position_at_time seg t include_z = Inl e) \<longleftrightarrow> (t < t_start seg \<or> t > t_end seg)) \<and>
   (t_start seg = t_end seg \<and> t_start seg \<le> t \<and> t \<le> t_end seg \<longrightarrow>
      position_at_time seg t include_z = Inr (to_array (seg_start seg) include_z)) \<and>
   (t_start seg \<noteq> t_end seg \<and> t_start seg \<le> t \<and> t \<le> t_end seg \<longrightarrow>
      position_at_time seg t False =
        Inr [wp_x (seg_start seg) + ((t - t_start seg) / (t_end seg - t_start seg)) * (wp_x (seg_end seg) - wp_x (seg_start seg)),
             wp_y (seg_start seg) + ((t - t_start seg) / (t_end seg - t_start seg)) * (wp_y (seg_end seg) - wp_y (seg_start seg))] \<and>
      position_at_time seg t True =
        Inr [wp_x (seg_start seg) + ((t - t_start seg) / (t_end seg - t_start seg)) * (wp_x (seg_end seg) - wp_x (seg_start seg)),
             wp_y (seg_start seg) + ((t - t_start seg) / (t_end seg - t_start seg)) * (wp_y (seg_end seg) - wp_y (seg_start seg)),
             wp_z (seg_start seg) + ((t - t_start seg) / (t_end seg - t_start seg)) * (wp_z (seg_end seg) - wp_z (seg_start seg))])"
  by (auto simp: position_at_time_def fdiv_def to_array_def arr_add_def arr_sub_def arr_scale_def)

theorem position_at_time_cases_witness:
  "t_start moving_segment \<noteq> t_end moving_segment \<and>
   t_start moving_segment \<le> 2 \<and> 2 \<le> t_end moving_segment \<and>
   position_at_time moving_segment 2 False = Inr [2, 0] \<and>
   position_at_time moving_segment 2 True = Inr [2, 0, 0] \<and>
   (\<exists>e. position_at_time moving_segment 7 False = Inl e) \<and>
   t_start instant_segment = t_end instant_segment \<and>
   t_start instant_segment \<le> 5 \<and> 5 \<le> t_end instant_segment \<and>
   position_at_time instant_segment 5 False = Inr [1, 2]"
  using position_at_time_cases [of moving_segment 2 False]
        position_at_time_cases [of moving_segment 7 False]
        position_at_time_cases [of instant_segment 5 False]
  by (simp add: moving_segment_def instant_segment_def waypoint_2d_def to_array_def)

subsection \<open>The standard and the enhanced detector\<close>

lemma sample_loop_high_accuracy_loop:
  "sample_loop seg1 seg2 include_z ts tr = high_accuracy_loop seg1 seg2 include_z ts tr"
  by (induction ts arbitrary: tr)
     (auto simp: sample_at_def improves_def split: sum.splits)

text \<open>
  Claim C9. For every pair of segments, safety buffer, dimensionality flag and sample count,
  \<^verbatim>\<open>segment_conflict\<close> of \<^verbatim>\<open>detector.py\<close>, \<^verbatim>\<open>segment_conflict_high_accuracy\<close> and the
  backward-compatible \<^verbatim>\<open>segment_conflict\<close> of \<^verbatim>\<open>detector_enhanced.py\<close> return equal results.
\<close>

theorem detectors_agree:
  "segment_conflict seg1 seg2 buffer include_z time_samples =
     segment_conflict_high_accuracy seg1 seg2 buffer include_z time_samples \<and>
   segment_conflict_enhanced seg1 seg2 buffer include_z time_samples =
     segment_conflict seg1 seg2 buffer include_z time_samples"
  by (auto simp: segment_conflict_def segment_conflict_high_accuracy_def
        segment_conflict_enhanced_def compute_overlap_window_def
        compute_overlap_window_enhanced_def time_windows_overlap_def
        time_windows_overlap_enhanced_def sampled_minimum_def report_def
        sample_loop_high_accuracy_loop
      split: sum.splits option.splits)

subsection \<open>Evenly spaced samples\<close>

lemma linspace_closed_form:
  assumes "2 \<le> k"
  shows "linspace a b k = Inr (map (\<lambda>i. a + real i * ((b - a) / real (nat k - 1))) [0..<nat k])"
proof -
  have pos: "real (nat k - 1) \<noteq> 0" using assms by auto
  have "b = a + real (nat k - 1) * ((b - a) / real (nat k - 1))"
    using pos by simp
  then have "(\<lambda>i. if i = nat k - 1 then b else a + real i * ((b - a) / real (nat k - 1)))
      = (\<lambda>i. a + real i * ((b - a) / real (nat k - 1)))"
    by auto
  then show ?thesis using assms by (simp add: linspace_def Let_def)
qed

lemma linspace_length:
  "linspace a b k = Inr ts \<Longrightarrow> length ts = nat k"
  by (auto simp: linspace_def Let_def split: if_splits)

lemma linspace_Inr_iff: "(\<exists>ts. linspace a b k = Inr ts) \<longleftrightarrow> 0 \<le> k"
  by (auto simp: linspace_def Let_def)


lemma grid_point_bounds:
  fixes a b :: real
  assumes "a \<le> b" "i \<le> m" "0 < m"
  shows "a \<le> a + real i * ((b - a) / real m)" "a + real i * ((b - a) / real m) \<le> b"
proof -
  have q: "0 \<le> real i / real m" "real i / real m \<le> 1" using assms by auto
  have e: "real i * ((b - a) / real m) = (real i / real m) * (b - a)" by simp
  show "a \<le> a + real i * ((b - a) / real m)"
    unfolding e using q(1) assms(1) by simp
  have "(real i / real m) * (b - a) \<le> 1 * (b - a)"
    using q(2) assms(1) by (intro mult_right_mono) auto
  then show "a + real i * ((b - a) / real m) \<le> b" unfolding e by simp
qed

lemma linspace_bounds:
  assumes "a \<le> b" "linspace a b k = Inr ts" "t \<in> set ts"
  shows "a \<le> t \<and> t \<le> b"
proof (cases "2 \<le> k")
  case True
  then obtain i where i: "i < nat k" "t = a + real i * ((b - a) / real (nat k - 1))"
    using assms(2,3) by (auto simp: linspace_closed_form)
  have "i \<le> nat k - 1" "0 < nat k - 1" using i(1) True by auto
  from grid_point_bounds[OF assms(1) this] show ?thesis using i(2) by simp
next
  case False
  then show ?thesis using assms by (auto simp: linspace_def Let_def split: if_splits)
qed

lemma linspace_hd:
  assumes "1 \<le> k" "linspace a b k = Inr ts"
  shows "ts \<noteq> [] \<and> hd ts = a"
proof (cases "2 \<le> k")
  case True
  have "[0..<nat k] = 0 # [1..<nat k]" using True by (simp add: upt_conv_Cons)
  then show ?thesis using assms(2) True by (auto simp: linspace_closed_form)
next
  case False
  then have "k = 1" using assms(1) by simp
  then show ?thesis using assms(2) by (auto simp: linspace_def)
qed


subsection \<open>Segment builder\<close>

lemma build_loop_spec:
  assumes "\<forall>i\<in>set idx. i + 1 < length (waypoints f) \<and> i + 1 < length tms"
  shows "build_loop f tms idx segs =
           Inr (segs @ map (\<lambda>i. \<lparr>seg_start = waypoints f ! i, seg_end = waypoints f ! (i + 1),
                                  t_start = tms ! i, t_end = tms ! (i + 1),
                                  flight_id = flight_ident f\<rparr>) idx)"
  using assms by (induction idx arbitrary: segs) auto

subsection \<open>The sampling loop\<close>

lemma position_at_time_Inr_iff:
  "(\<exists>p. position_at_time seg t z = Inr p) \<longleftrightarrow> t_start seg \<le> t \<and> t \<le> t_end seg"
  by (auto simp: position_at_time_def fdiv_def Let_def)

lemma sample_at_Inr_iff:
  "(\<exists>r. sample_at seg1 seg2 z t = Inr r) \<longleftrightarrow>
     (t_start seg1 \<le> t \<and> t \<le> t_end seg1) \<and> (t_start seg2 \<le> t \<and> t \<le> t_end seg2)"
  using position_at_time_Inr_iff[of seg1 t z] position_at_time_Inr_iff[of seg2 t z]
  by (auto simp: sample_at_def split: sum.splits)

lemma sample_at_positions:
  "sample_at seg1 seg2 z t = Inr (p, d) \<longleftrightarrow>
     (\<exists>q. position_at_time seg1 t z = Inr p \<and> position_at_time seg2 t z = Inr q \<and>
          d = linalg_norm (arr_sub p q))"
  by (auto simp: sample_at_def split: sum.splits)

lemma sample_loop_total:
  "\<forall>t\<in>set ts. \<exists>r. sample_at seg1 seg2 z t = Inr r \<Longrightarrow>
     \<exists>tr'. sample_loop seg1 seg2 z ts tr = Inr tr'"
  by (induction ts arbitrary: tr) (auto split: sum.splits)

lemma sample_loop_None:
  "sample_loop seg1 seg2 z ts tr = Inr None \<Longrightarrow> ts = [] \<and> tr = None"
proof (induction ts arbitrary: tr)
  case Nil
  then show ?case by simp
next
  case (Cons t0 ts)
  from Cons.prems obtain p0 d0 where s0: "sample_at seg1 seg2 z t0 = Inr (p0, d0)"
    by (auto split: sum.splits)
  show ?case
  proof (cases "improves d0 tr")
    case True
    then have "sample_loop seg1 seg2 z ts (Some (d0, t0, p0)) = Inr None"
      using Cons.prems s0 by simp
    from Cons.IH[OF this] show ?thesis by simp
  next
    case False
    then have "sample_loop seg1 seg2 z ts tr = Inr None"
      using Cons.prems s0 by simp
    from Cons.IH[OF this] False show ?thesis by (simp add: improves_def)
  qed
qed

lemma improves_trans:
  "improves d (Some (d0, t0, p0)) \<Longrightarrow> improves d0 tr \<Longrightarrow> improves d tr"
  by (auto simp: improves_def split: option.splits)

lemma improves_between:
  "improves d tr \<Longrightarrow> \<not> improves d0 tr \<Longrightarrow> d < d0"
  by (auto simp: improves_def split: option.splits)

text \<open>The state after the loop: either the state before it, which no sample improved, or
  the first sample that attains the least distance.\<close>

lemma sample_loop_Some:
  assumes "sample_loop seg1 seg2 z ts tr = Inr (Some (d, t, p))"
  shows "(tr = Some (d, t, p) \<and>
            (\<forall>u\<in>set ts. \<exists>pu du. sample_at seg1 seg2 z u = Inr (pu, du) \<and> d \<le> du)) \<or>
         (\<exists>pre post. ts = pre @ t # post \<and> sample_at seg1 seg2 z t = Inr (p, d) \<and>
            improves d tr \<and>
            (\<forall>u\<in>set pre. \<exists>pu du. sample_at seg1 seg2 z u = Inr (pu, du) \<and> d < du) \<and>
            (\<forall>u\<in>set post. \<exists>pu du. sample_at seg1 seg2 z u = Inr (pu, du) \<and> d \<le> du))"
  using assms
proof (induction ts arbitrary: tr)
  case Nil
  then show ?case by simp
next
  case (Cons t0 ts)
  from Cons.prems obtain p0 d0 where s0: "sample_at seg1 seg2 z t0 = Inr (p0, d0)"
    by (auto split: sum.splits)
  show ?case
  proof (cases "improves d0 tr")
    case True
    then have run: "sample_loop seg1 seg2 z ts (Some (d0, t0, p0)) = Inr (Some (d, t, p))"
      using Cons.prems s0 by simp
    from Cons.IH[OF run] show ?thesis
    proof (elim disjE conjE exE)
      assume eq: "Some (d0, t0, p0) = Some (d, t, p)"
        and rest: "\<forall>u\<in>set ts. \<exists>pu du. sample_at seg1 seg2 z u = Inr (pu, du) \<and> d \<le> du"
      have "t0 # ts = [] @ t # ts" using eq by simp
      moreover have "sample_at seg1 seg2 z t = Inr (p, d)" using eq s0 by simp
      moreover have "improves d tr" using eq True by simp
      moreover have "\<forall>u\<in>set ([]::real list). \<exists>pu du. sample_at seg1 seg2 z u = Inr (pu, du) \<and> d < du"
        by simp
      ultimately show ?thesis using rest by blast
    next
      fix pre post
      assume split: "ts = pre @ t # post" and at: "sample_at seg1 seg2 z t = Inr (p, d)"
        and imp: "improves d (Some (d0, t0, p0))"
        and pre: "\<forall>u\<in>set pre. \<exists>pu du. sample_at seg1 seg2 z u = Inr (pu, du) \<and> d < du"
        and post: "\<forall>u\<in>set post. \<exists>pu du. sample_at seg1 seg2 z u = Inr (pu, du) \<and> d \<le> du"
      have "d < d0" using imp by (simp add: improves_def)
      then have pre': "\<forall>u\<in>set (t0 # pre). \<exists>pu du. sample_at seg1 seg2 z u = Inr (pu, du) \<and> d < du"
        using pre s0 by auto
      have "t0 # ts = (t0 # pre) @ t # post" using split by simp
      moreover have "improves d tr" using improves_trans[OF imp True] .
      ultimately show ?thesis using at pre' post by blast
    qed
  next
    case False
    then have run: "sample_loop seg1 seg2 z ts tr = Inr (Some (d, t, p))"
      using Cons.prems s0 by simp
    from Cons.IH[OF run] show ?thesis
    proof (elim disjE conjE exE)
      assume eq: "tr = Some (d, t, p)"
        and rest: "\<forall>u\<in>set ts. \<exists>pu du. sample_at seg1 seg2 z u = Inr (pu, du) \<and> d \<le> du"
      have "d \<le> d0" using False eq by (simp add: improves_def)
      then show ?thesis using eq rest s0 by auto
    next
      fix pre post
      assume split: "ts = pre @ t # post" and at: "sample_at seg1 seg2 z t = Inr (p, d)"
        and imp: "improves d tr"
        and pre: "\<forall>u\<in>set pre. \<exists>pu du. sample_at seg1 seg2 z u = Inr (pu, du) \<and> d < du"
        and post: "\<forall>u\<in>set post. \<exists>pu du. sample_at seg1 seg2 z u = Inr (pu, du) \<and> d \<le> du"
      have "d < d0" using improves_between[OF imp False] .
      then have pre': "\<forall>u\<in>set (t0 # pre). \<exists>pu du. sample_at seg1 seg2 z u = Inr (pu, du) \<and> d < du"
        using pre s0 by auto
      have "t0 # ts = (t0 # pre) @ t # post" using split by simp
      then show ?thesis using at imp pre' post by blast
    qed
  qed
qed

lemma sample_loop_from_None:
  assumes "sample_loop seg1 seg2 z ts None = Inr (Some (d, t, p))"
  shows "\<exists>pre post. ts = pre @ t # post \<and> sample_at seg1 seg2 z t = Inr (p, d) \<and>
            (\<forall>u\<in>set pre. \<exists>pu du. sample_at seg1 seg2 z u = Inr (pu, du) \<and> d < du) \<and>
            (\<forall>u\<in>set post. \<exists>pu du. sample_at seg1 seg2 z u = Inr (pu, du) \<and> d \<le> du)"
  using sample_loop_Some[OF assms] by auto


lemma sample_loop_nonempty:
  assumes "sample_loop seg1 seg2 z ts None = Inr tr" "ts \<noteq> []"
  shows "\<exists>d t p. tr = Some (d, t, p)"
  using assms sample_loop_None[of seg1 seg2 z ts None] by (cases tr) auto

subsection \<open>Sampling stays inside the overlap window\<close>

lemma overlap_window_Some:
  assumes "max (t_start seg1) (t_start seg2) \<le> min (t_end seg1) (t_end seg2)"
  shows "compute_overlap_window (t_start seg1) (t_end seg1) (t_start seg2) (t_end seg2) =
           Some (max (t_start seg1) (t_start seg2), min (t_end seg1) (t_end seg2))"
  using assms by (auto simp: compute_overlap_window_def time_windows_overlap_def)


lemma overlap_window_result:
  "compute_overlap_window a b c d = Some (os, oe) \<Longrightarrow> os = max a c \<and> oe = min b d"
  by (auto simp: compute_overlap_window_def split: if_splits)

lemma samples_in_spans:
  assumes "max (t_start seg1) (t_start seg2) \<le> min (t_end seg1) (t_end seg2)"
    "linspace (max (t_start seg1) (t_start seg2)) (min (t_end seg1) (t_end seg2)) k = Inr ts"
    "t \<in> set ts"
  shows "t_start seg1 \<le> t \<and> t \<le> t_end seg1 \<and> t_start seg2 \<le> t \<and> t \<le> t_end seg2"
  using linspace_bounds[OF assms] by auto

lemma sampled_minimum_total:
  assumes "max (t_start seg1) (t_start seg2) \<le> min (t_end seg1) (t_end seg2)" "0 \<le> k"
  shows "\<exists>ts tr. linspace (max (t_start seg1) (t_start seg2)) (min (t_end seg1) (t_end seg2)) k = Inr ts \<and>
           sample_loop seg1 seg2 z ts None = Inr tr \<and>
           sampled_minimum seg1 seg2 z k (max (t_start seg1) (t_start seg2))
             (min (t_end seg1) (t_end seg2)) = Inr tr"
proof -
  obtain ts where ts: "linspace (max (t_start seg1) (t_start seg2)) (min (t_end seg1) (t_end seg2)) k = Inr ts"
    using assms(2) linspace_Inr_iff by blast
  have "\<forall>t\<in>set ts. \<exists>r. sample_at seg1 seg2 z t = Inr r"
    using samples_in_spans[OF assms(1) ts] sample_at_Inr_iff[of seg1 seg2 z] by blast
  from sample_loop_total[OF this, of None] obtain tr where
    "sample_loop seg1 seg2 z ts None = Inr tr" by blast
  then show ?thesis using ts by (auto simp: sampled_minimum_def)
qed



lemma report_Some:
  "report seg1 seg2 b tr = Some c \<longleftrightarrow>
     (\<exists>m t p. tr = Some (m, t, p) \<and> m < b \<and>
        c = \<lparr>primary_flight_id = flight_id seg1, conflicting_flight_id = flight_id seg2,
             location = p, conflict_time = t, min_distance = m, safety_buffer = b\<rparr>)"
  by (auto simp: report_def split: option.splits)

lemma segment_conflict_Some:
  assumes "segment_conflict seg1 seg2 b z k = Inr (Some c)"
  shows "\<exists>ts. linspace (max (t_start seg1) (t_start seg2)) (min (t_end seg1) (t_end seg2)) k = Inr ts \<and>
           sample_loop seg1 seg2 z ts None =
             Inr (Some (min_distance c, conflict_time c, location c)) \<and>
           min_distance c < b \<and> primary_flight_id c = flight_id seg1 \<and>
           conflicting_flight_id c = flight_id seg2 \<and> safety_buffer c = b"
proof -
  from assms obtain os oe where ow:
    "compute_overlap_window (t_start seg1) (t_end seg1) (t_start seg2) (t_end seg2) = Some (os, oe)"
    by (auto simp: segment_conflict_def split: option.splits)
  from overlap_window_result[OF ow] have os: "os = max (t_start seg1) (t_start seg2)"
    and oe: "oe = min (t_end seg1) (t_end seg2)" by auto
  from assms ow obtain tr where tr: "sampled_minimum seg1 seg2 z k os oe = Inr tr"
    "report seg1 seg2 b tr = Some c"
    by (auto simp: segment_conflict_def split: sum.splits)
  from tr(1) obtain ts where ts: "linspace os oe k = Inr ts"
    "sample_loop seg1 seg2 z ts None = Inr tr"
    by (auto simp: sampled_minimum_def split: sum.splits)
  from tr(2) ts os oe show ?thesis by (auto simp: report_Some)
qed

subsection \<open>Stationary segments\<close>

lemma stationary_position:
  assumes "seg_start seg = seg_end seg" "t_start seg \<le> t" "t \<le> t_end seg"
  shows "position_at_time seg t z = Inr (to_array (seg_start seg) z)"
  using assms
  by (auto simp: position_at_time_def fdiv_def Let_def to_array_def arr_add_def arr_sub_def
        arr_scale_def)

lemma stationary_sample:
  assumes "seg_start seg1 = seg_end seg1" "seg_start seg2 = seg_end seg2"
    "sample_at seg1 seg2 z t = Inr (p, d)"
  shows "p = to_array (seg_start seg1) z \<and>
         d = linalg_norm (arr_sub (to_array (seg_start seg1) z) (to_array (seg_start seg2) z))"
proof -
  from assms(3) have "\<exists>r. sample_at seg1 seg2 z t = Inr r" by blast
  then have r: "t_start seg1 \<le> t" "t \<le> t_end seg1" "t_start seg2 \<le> t" "t \<le> t_end seg2"
    using sample_at_Inr_iff[of seg1 seg2 z t] by auto
  show ?thesis
    using assms(3) stationary_position[OF assms(1) r(1,2), of z]
      stationary_position[OF assms(2) r(3,4), of z]
    by (auto simp: sample_at_def)
qed

lemma earliest_split:
  assumes "segment_conflict seg1 seg2 b z k = Inr (Some c)"
  shows "\<exists>pre post.
           linspace (max (t_start seg1) (t_start seg2)) (min (t_end seg1) (t_end seg2)) k =
             Inr (pre @ conflict_time c # post) \<and>
           sample_at seg1 seg2 z (conflict_time c) = Inr (location c, min_distance c) \<and>
           (\<forall>u\<in>set pre. \<exists>pu du. sample_at seg1 seg2 z u = Inr (pu, du) \<and> min_distance c < du) \<and>
           (\<forall>u\<in>set post. \<exists>pu du. sample_at seg1 seg2 z u = Inr (pu, du) \<and> min_distance c \<le> du)"
proof -
  from segment_conflict_Some[OF assms] obtain ts where
    ts: "linspace (max (t_start seg1) (t_start seg2)) (min (t_end seg1) (t_end seg2)) k = Inr ts"
    and l: "sample_loop seg1 seg2 z ts None = Inr (Some (min_distance c, conflict_time c, location c))"
    by blast
  from sample_loop_from_None[OF l] ts show ?thesis by blast
qed

lemma stationary_earliest:
  assumes c: "segment_conflict seg1 seg2 b z k = Inr (Some c)"
    and st: "seg_start seg1 = seg_end seg1" "seg_start seg2 = seg_end seg2"
  shows "conflict_time c = max (t_start seg1) (t_start seg2) \<and>
         location c = to_array (seg_start seg1) z"
proof -
  let ?d0 = "linalg_norm (arr_sub (to_array (seg_start seg1) z) (to_array (seg_start seg2) z))"
  from earliest_split[OF c] obtain pre post where
    ts: "linspace (max (t_start seg1) (t_start seg2)) (min (t_end seg1) (t_end seg2)) k =
             Inr (pre @ conflict_time c # post)"
    and at: "sample_at seg1 seg2 z (conflict_time c) = Inr (location c, min_distance c)"
    and pre: "\<forall>u\<in>set pre. \<exists>pu du. sample_at seg1 seg2 z u = Inr (pu, du) \<and> min_distance c < du"
    by blast
  from stationary_sample[OF st at] have m: "location c = to_array (seg_start seg1) z"
    "min_distance c = ?d0" by auto
  have "pre = []"
  proof (rule ccontr)
    assume "pre \<noteq> []"
    then obtain u where "u \<in> set pre" by (cases pre) auto
    with pre obtain pu du where u: "sample_at seg1 seg2 z u = Inr (pu, du)" "min_distance c < du"
      by blast
    from stationary_sample[OF st u(1)] have "du = ?d0" by simp
    with u(2) m(2) show False by simp
  qed
  with ts have ts': "linspace (max (t_start seg1) (t_start seg2)) (min (t_end seg1) (t_end seg2)) k =
             Inr (conflict_time c # post)" by simp
  from linspace_length[OF ts'] have "1 \<le> k" by auto
  from linspace_hd[OF this ts'] m(1) show ?thesis by simp
qed


subsection \<open>Ties are resolved towards the earliest sample\<close>

text \<open>
  Claim C10. When \<^verbatim>\<open>segment_conflict\<close> returns a Conflict, its time is a sample timestamp,
  its location the primary position there and its distance the distance there; every
  earlier sample has a strictly greater distance and every later sample a distance at least
  as great, so among the samples attaining the minimum the earliest is reported. For two
  stationary segments the reported time is the start of the overlap window, and such a
  Conflict is reported whenever the windows intersect, there is at least one sample and the
  two points are closer than the buffer.
\<close>

theorem earliest_minimum_reported:
  "(segment_conflict seg1 seg2 buffer include_z time_samples = Inr (Some c) \<longrightarrow>
      (\<exists>pre post.
         linspace (max (t_start seg1) (t_start seg2)) (min (t_end seg1) (t_end seg2))
           time_samples = Inr (pre @ conflict_time c # post) \<and>
         sample_at seg1 seg2 include_z (conflict_time c) = Inr (location c, min_distance c) \<and>
         position_at_time seg1 (conflict_time c) include_z = Inr (location c) \<and>
         (\<forall>u\<in>set pre. \<exists>pu du. sample_at seg1 seg2 include_z u = Inr (pu, du) \<and>
             min_distance c < du) \<and>
         (\<forall>u\<in>set post. \<exists>pu du. sample_at seg1 seg2 include_z u = Inr (pu, du) \<and>
             min_distance c \<le> du)) \<and>
      (seg_start seg1 = seg_end seg1 \<and> seg_start seg2 = seg_end seg2 \<longrightarrow>
         conflict_time c = max (t_start seg1) (t_start seg2) \<and>
         location c = to_array (seg_start seg1) include_z)) \<and>
   (seg_start seg1 = seg_end seg1 \<and> seg_start seg2 = seg_end seg2 \<and>
    max (t_start seg1) (t_start seg2) \<le> min (t_end seg1) (t_end seg2) \<and>
    1 \<le> time_samples \<and>
    linalg_norm (arr_sub (to_array (seg_start seg1) include_z)
                         (to_array (seg_start seg2) include_z)) < buffer \<longrightarrow>
      (\<exists>c'. segment_conflict seg1 seg2 buffer include_z time_samples = Inr (Some c') \<and>
            conflict_time c' = max (t_start seg1) (t_start seg2)))"
proof (intro conjI impI)
  assume c: "segment_conflict seg1 seg2 buffer include_z time_samples = Inr (Some c)"
  from earliest_split[OF c] obtain pre post where
    s: "linspace (max (t_start seg1) (t_start seg2)) (min (t_end seg1) (t_end seg2))
           time_samples = Inr (pre @ conflict_time c # post)"
      "sample_at seg1 seg2 include_z (conflict_time c) = Inr (location c, min_distance c)"
      "\<forall>u\<in>set pre. \<exists>pu du. sample_at seg1 seg2 include_z u = Inr (pu, du) \<and> min_distance c < du"
      "\<forall>u\<in>set post. \<exists>pu du. sample_at seg1 seg2 include_z u = Inr (pu, du) \<and> min_distance c \<le> du"
    by blast
  have "position_at_time seg1 (conflict_time c) include_z = Inr (location c)"
    using s(2) by (auto simp: sample_at_positions)
  with s show "\<exists>pre post.
         linspace (max (t_start seg1) (t_start seg2)) (min (t_end seg1) (t_end seg2))
           time_samples = Inr (pre @ conflict_time c # post) \<and>
         sample_at seg1 seg2 include_z (conflict_time c) = Inr (location c, min_distance c) \<and>
         position_at_time seg1 (conflict_time c) include_z = Inr (location c) \<and>
         (\<forall>u\<in>set pre. \<exists>pu du. sample_at seg1 seg2 include_z u = Inr (pu, du) \<and>
             min_distance c < du) \<and>
         (\<forall>u\<in>set post. \<exists>pu du. sample_at seg1 seg2 include_z u = Inr (pu, du) \<and>
             min_distance c \<le> du)"
    by blast
next
  assume c: "segment_conflict seg1 seg2 buffer include_z time_samples = Inr (Some c)"
    and st: "seg_start seg1 = seg_end seg1 \<and> seg_start seg2 = seg_end seg2"
  from stationary_earliest[OF c] st
  show "conflict_time c = max (t_start seg1) (t_start seg2)"
    "location c = to_array (seg_start seg1) include_z" by auto
next
  let ?os = "max (t_start seg1) (t_start seg2)"
  let ?oe = "min (t_end seg1) (t_end seg2)"
  let ?d0 = "linalg_norm (arr_sub (to_array (seg_start seg1) include_z)
                         (to_array (seg_start seg2) include_z))"
  assume h: "seg_start seg1 = seg_end seg1 \<and> seg_start seg2 = seg_end seg2 \<and>
    ?os \<le> ?oe \<and> 1 \<le> time_samples \<and> ?d0 < buffer"
  then have st: "seg_start seg1 = seg_end seg1" "seg_start seg2 = seg_end seg2"
    and ov: "?os \<le> ?oe" and k: "1 \<le> time_samples" and near: "?d0 < buffer" by auto
  have k0: "0 \<le> time_samples" using k by simp
  from sampled_minimum_total[OF ov k0, of include_z] obtain ts tr where
    ts: "linspace ?os ?oe time_samples = Inr ts"
    and loop: "sample_loop seg1 seg2 include_z ts None = Inr tr"
    and sm: "sampled_minimum seg1 seg2 include_z time_samples ?os ?oe = Inr tr"
    by blast
  have ne: "ts \<noteq> []" using linspace_hd[OF k ts] by simp
  from sample_loop_nonempty[OF loop ne] obtain m tm pm where tr: "tr = Some (m, tm, pm)"
    by blast
  from sample_loop_from_None[OF loop[unfolded tr]] have
    at: "sample_at seg1 seg2 include_z tm = Inr (pm, m)" by blast
  from stationary_sample[OF st at] have "m = ?d0" by simp
  then have "m < buffer" using near by simp
  then have res: "segment_conflict seg1 seg2 buffer include_z time_samples =
      Inr (Some \<lparr>primary_flight_id = flight_id seg1, conflicting_flight_id = flight_id seg2,
                 location = pm, conflict_time = tm, min_distance = m, safety_buffer = buffer\<rparr>)"
    using overlap_window_Some[OF ov] sm tr by (simp add: segment_conflict_def report_def)
  from stationary_earliest[OF res st] have "tm = ?os" by simp
  with res show "\<exists>c'. segment_conflict seg1 seg2 buffer include_z time_samples = Inr (Some c') \<and>
            conflict_time c' = ?os"
    by auto
qed

theorem earliest_minimum_reported_witness:
  "seg_start parked_segment = seg_end parked_segment \<and>
   max (t_start parked_segment) (t_start parked_segment)
     \<le> min (t_end parked_segment) (t_end parked_segment) \<and>
   (1::int) \<le> 20 \<and>
   linalg_norm (arr_sub (to_array (seg_start parked_segment) False)
                        (to_array (seg_start parked_segment) False)) < 10 \<and>
   (\<exists>c. segment_conflict parked_segment parked_segment 10 False 20 = Inr (Some c) \<and>
        conflict_time c = 0 \<and> location c = [3, 0] \<and>
        position_at_time parked_segment (conflict_time c) False = Inr (location c))"
proof -
  have st: "seg_start parked_segment = seg_end parked_segment"
    by (simp add: parked_segment_def)
  have ov: "max (t_start parked_segment) (t_start parked_segment)
     \<le> min (t_end parked_segment) (t_end parked_segment)"
    by (simp add: parked_segment_def)
  have near: "linalg_norm (arr_sub (to_array (seg_start parked_segment) False)
                        (to_array (seg_start parked_segment) False)) < 10"
    by (simp add: linalg_norm_def arr_sub_def to_array_def)
  have k: "(1::int) \<le> 20" by simp
  have "\<exists>c'. segment_conflict parked_segment parked_segment 10 False 20 = Inr (Some c') \<and>
            conflict_time c' = max (t_start parked_segment) (t_start parked_segment)"
    using earliest_minimum_reported [where ?seg1.0=parked_segment and ?seg2.0=parked_segment
        and buffer=10 and include_z=False and time_samples=20, THEN conjunct2] st ov k near
    by blast
  then obtain c where c: "segment_conflict parked_segment parked_segment 10 False 20 = Inr (Some c)"
    "conflict_time c = max (t_start parked_segment) (t_start parked_segment)"
    by blast
  have first: "(\<exists>pre post.
         linspace (max (t_start parked_segment) (t_start parked_segment))
           (min (t_end parked_segment) (t_end parked_segment)) 20 =
           Inr (pre @ conflict_time c # post) \<and>
         sample_at parked_segment parked_segment False (conflict_time c) =
           Inr (location c, min_distance c) \<and>
         position_at_time parked_segment (conflict_time c) False = Inr (location c) \<and>
         (\<forall>u\<in>set pre. \<exists>pu du. sample_at parked_segment parked_segment False u = Inr (pu, du) \<and>
             min_distance c < du) \<and>
         (\<forall>u\<in>set post. \<exists>pu du. sample_at parked_segment parked_segment False u = Inr (pu, du) \<and>
             min_distance c \<le> du)) \<and>
      (seg_start parked_segment = seg_end parked_segment \<and>
       seg_start parked_segment = seg_end parked_segment \<longrightarrow>
         conflict_time c = max (t_start parked_segment) (t_start parked_segment) \<and>
         location c = to_array (seg_start parked_segment) False)"
    using earliest_minimum_reported [where ?seg1.0=parked_segment and ?seg2.0=parked_segment
        and buffer=10 and include_z=False and time_samples=20 and c=c, THEN conjunct1] c(1)
    by blast
  have loc: "location c = to_array (seg_start parked_segment) False"
    and pos: "position_at_time parked_segment (conflict_time c) False = Inr (location c)"
    using first st by blast+
  have "conflict_time c = 0" using c(2) by (simp add: parked_segment_def)
  moreover have "location c = [3, 0]"
    using loc by (simp add: parked_segment_def to_array_def waypoint_2d_def)
  ultimately show ?thesis using st ov k near c(1) pos by blast
qed

subsection \<open>What the detector returns\<close>




subsection \<open>Evaluating the concrete scenarios\<close>

lemma upt_3: "[0..<3] = [0, 1, 2]" by (simp add: eval_nat_numeral)
lemma upt_2: "[0..<2] = [0, 1]" by (simp add: eval_nat_numeral)

lemma coincident_mission_times:
  "compute_segment_times coincident_mission = Inr [0, 5, 10]"
  by (simp add: compute_segment_times_def coincident_mission_def leg_lengths_def Let_def
       is_3d_def waypoint_2d_def to_array_def arr_sub_def linalg_norm_def linspace_def upt_3 upt_2)

lemma coincident_mission_segments:
  "build_segments coincident_mission =
     Inr [\<lparr>seg_start = waypoint_2d 5 5, seg_end = waypoint_2d 5 5, t_start = 0, t_end = 5,
           flight_id = ''P''\<rparr>,
          \<lparr>seg_start = waypoint_2d 5 5, seg_end = waypoint_2d 5 5, t_start = 5, t_end = 10,
           flight_id = ''P''\<rparr>]"
  by (simp add: build_segments_def coincident_mission_times upt_2)
     (simp add: coincident_mission_def)



subsection \<open>The loop nest of the mission checker\<close>













subsection \<open>Mission checker\<close>






subsection \<open>Missions of zero path length\<close>

lemma linalg_norm_self: "linalg_norm (arr_sub (to_array w z) (to_array w z)) = 0"
  by (simp add: linalg_norm_def arr_sub_def to_array_def)

lemma sum_list_zeros:
  fixes ls :: "real list"
  shows "\<forall>l\<in>set ls. l = 0 \<Longrightarrow> sum_list ls = 0"
  by (induction ls) auto

lemma coincident_total_length:
  assumes "\<forall>w\<in>set (waypoints f). w = hd (waypoints f)"
  shows "sum_list (leg_lengths f) = 0"
proof -
  have "\<forall>l\<in>set (leg_lengths f). l = 0"
  proof
    fix l assume "l \<in> set (leg_lengths f)"
    then obtain i where i: "i < length (waypoints f) - 1"
      "l = linalg_norm (arr_sub (to_array (waypoints f ! (i + 1)) (is_3d f))
                                (to_array (waypoints f ! i) (is_3d f)))"
      by (auto simp: leg_lengths_def Let_def)
    have "waypoints f ! i \<in> set (waypoints f)" "waypoints f ! (i + 1) \<in> set (waypoints f)"
      using i(1) by auto
    then have "waypoints f ! i = hd (waypoints f)" "waypoints f ! (i + 1) = hd (waypoints f)"
      using assms by blast+
    then show "l = 0" using i(2) by (simp add: linalg_norm_self)
  qed
  then show ?thesis by (rule sum_list_zeros)
qed

lemma zero_length_times:
  assumes "valid_flight f" "sum_list (leg_lengths f) = 0"
  shows "compute_segment_times f =
           Inr (map (\<lambda>i. mission_t_start f +
                      real i * ((mission_t_end f - mission_t_start f) /
                                real (length (waypoints f) - 1)))
                    [0..<length (waypoints f)])"
proof -
  have n2: "2 \<le> int (length (waypoints f))" using assms(1) by (simp add: valid_flight_def)
  show ?thesis
    using assms(2) linspace_closed_form[OF n2, of "mission_t_start f" "mission_t_end f"]
    by (simp add: compute_segment_times_def Let_def)
qed

text \<open>
  Claim C7. A valid Mission all of whose waypoints coincide has total path length zero.
  For a valid Mission of total path length zero the builder divides only by the number of
  waypoints minus one, which is not zero, the time of waypoint i is
  t_start + i * (t_end - t_start) / (n - 1), and every segment lasts
  (t_end - t_start) / (n - 1). The mission with three waypoints at (5, 5) and the window
  0 to 10 yields the two segments from 0 to 5 and from 5 to 10.
\<close>

theorem zero_length_even_allocation:
  "(valid_flight f \<and> (\<forall>w\<in>set (waypoints f). w = hd (waypoints f)) \<longrightarrow>
      sum_list (leg_lengths f) = 0) \<and>
   (valid_flight f \<and> sum_list (leg_lengths f) = 0 \<longrightarrow>
      real (length (waypoints f) - 1) \<noteq> 0 \<and>
      compute_segment_times f =
        Inr (map (\<lambda>i. mission_t_start f +
                   real i * ((mission_t_end f - mission_t_start f) /
                             real (length (waypoints f) - 1)))
                 [0..<length (waypoints f)]) \<and>
      (\<exists>segs. build_segments f = Inr segs \<and> length segs = length (waypoints f) - 1 \<and>
         (\<forall>i<length segs.
            t_start (segs ! i) = mission_t_start f +
               real i * ((mission_t_end f - mission_t_start f) /
                         real (length (waypoints f) - 1)) \<and>
            t_end (segs ! i) - t_start (segs ! i) =
               (mission_t_end f - mission_t_start f) / real (length (waypoints f) - 1)))) \<and>
   build_segments coincident_mission =
     Inr [\<lparr>seg_start = waypoint_2d 5 5, seg_end = waypoint_2d 5 5, t_start = 0, t_end = 5,
           flight_id = ''P''\<rparr>,
          \<lparr>seg_start = waypoint_2d 5 5, seg_end = waypoint_2d 5 5, t_start = 5, t_end = 10,
           flight_id = ''P''\<rparr>]"
proof (intro conjI impI)
  assume "valid_flight f \<and> (\<forall>w\<in>set (waypoints f). w = hd (waypoints f))"
  then show "sum_list (leg_lengths f) = 0" using coincident_total_length by blast
next
  show "build_segments coincident_mission =
     Inr [\<lparr>seg_start = waypoint_2d 5 5, seg_end = waypoint_2d 5 5, t_start = 0, t_end = 5,
           flight_id = ''P''\<rparr>,
          \<lparr>seg_start = waypoint_2d 5 5, seg_end = waypoint_2d 5 5, t_start = 5, t_end = 10,
           flight_id = ''P''\<rparr>]"
    by (rule coincident_mission_segments)
next
  assume h: "valid_flight f \<and> sum_list (leg_lengths f) = 0"
  then have v: "valid_flight f" and z: "sum_list (leg_lengths f) = 0" by auto
  let ?n = "length (waypoints f)"
  let ?ts = "mission_t_start f"
  let ?step = "(mission_t_end f - mission_t_start f) / real (?n - 1)"
  let ?tms = "map (\<lambda>i. ?ts + real i * ?step) [0..<?n]"
  have n2: "2 \<le> ?n" using v by (simp add: valid_flight_def)
  then show "real (?n - 1) \<noteq> 0" by simp
  show tm: "compute_segment_times f = Inr ?tms" using zero_length_times[OF v z] .
  have idx: "\<forall>i\<in>set [0..<?n - 1]. i + 1 < length (waypoints f) \<and> i + 1 < length ?tms"
    by auto
  let ?segs = "map (\<lambda>i. \<lparr>seg_start = waypoints f ! i, seg_end = waypoints f ! (i + 1),
                            t_start = ?tms ! i, t_end = ?tms ! (i + 1),
                            flight_id = flight_ident f\<rparr>) [0..<?n - 1]"
  have bs: "build_segments f = Inr ?segs"
    using build_loop_spec[OF idx, of "[]"] tm by (simp add: build_segments_def)
  have "\<forall>i<length ?segs.
            t_start (?segs ! i) = ?ts + real i * ?step \<and>
            t_end (?segs ! i) - t_start (?segs ! i) = ?step"
  proof (intro allI impI)
    fix i assume "i < length ?segs"
    then have i: "i < ?n - 1" by simp
    then have i1: "i < ?n" and i2: "i + 1 < ?n" by auto
    define st where "st = ?step"
    have a: "?tms ! i = ?ts + real i * st"
      using nth_map[of i "[0..<?n]" "\<lambda>i. ?ts + real i * ?step"] i1 by (simp add: st_def)
    have b: "?tms ! (i + 1) = ?ts + (real i + 1) * st"
      using nth_map[of "i + 1" "[0..<?n]" "\<lambda>i. ?ts + real i * ?step"] i2
      by (simp add: st_def add.commute)
    have "?tms ! (i + 1) - ?tms ! i = st"
      unfolding a b by (simp add: algebra_simps)
    then have d: "?tms ! (i + 1) - ?tms ! i = ?step" by (simp add: st_def)
    have a': "?tms ! i = ?ts + real i * ?step" using a by (simp add: st_def)
    have "t_start (?segs ! i) = ?tms ! i" "t_end (?segs ! i) = ?tms ! (i + 1)"
      using i by simp_all
    then show "t_start (?segs ! i) = ?ts + real i * ?step \<and>
            t_end (?segs ! i) - t_start (?segs ! i) = ?step"
      using a' d by (simp only:)
  qed
  moreover have "length ?segs = ?n - 1" by simp
  ultimately show "\<exists>segs. build_segments f = Inr segs \<and> length segs = ?n - 1 \<and>
         (\<forall>i<length segs.
            t_start (segs ! i) = ?ts + real i * ?step \<and>
            t_end (segs ! i) - t_start (segs ! i) = ?step)"
    using bs by blast
qed

theorem zero_length_even_allocation_witness:
  "valid_flight coincident_mission \<and>
   list_all (\<lambda>w. w = hd (waypoints coincident_mission)) (waypoints coincident_mission) \<and>
   sum_list (leg_lengths coincident_mission) = 0 \<and>
   compute_segment_times coincident_mission = Inr [0, 5, 10]"
proof -
  have v: "valid_flight coincident_mission"
    by (simp add: valid_flight_def coincident_mission_def)
  have c: "\<forall>w\<in>set (waypoints coincident_mission). w = hd (waypoints coincident_mission)"
    by (simp add: coincident_mission_def)
  have z: "sum_list (leg_lengths coincident_mission) = 0"
    using zero_length_even_allocation [of coincident_mission] v c by blast
  have "compute_segment_times coincident_mission =
        Inr (map (\<lambda>i. mission_t_start coincident_mission +
                   real i * ((mission_t_end coincident_mission - mission_t_start coincident_mission) /
                             real (length (waypoints coincident_mission) - 1)))
                 [0..<length (waypoints coincident_mission)])"
    using zero_length_even_allocation [of coincident_mission] v z by blast
  then have "compute_segment_times coincident_mission = Inr [0, 5, 10]"
    by (simp add: coincident_mission_def upt_3)
  then show ?thesis using v c z by (simp add: list_all_iff)
qed

subsection \<open>Sample counts and the tracked minimum\<close>







subsection \<open>Binary64 rounding\<close>

lemma pow2_pos: "0 < pow2 e"
  by (simp add: pow2_def)

lemma pow2_powr: "pow2 e = 2 powr (real_of_int e)"
proof (cases "0 \<le> e")
  case True
  then have "real_of_int e = real (nat e)" by simp
  then have "2 powr (real_of_int e) = (2::real) ^ nat e"
    by (metis powr_realpow zero_less_numeral)
  then show ?thesis using True by (simp add: pow2_def)
next
  case False
  then have "real_of_int e = - real (nat (- e))" by simp
  then have "2 powr (real_of_int e) = 1 / (2::real) ^ nat (- e)"
    by (metis powr_minus_divide powr_realpow zero_less_numeral)
  then show ?thesis using False by (simp add: pow2_def)
qed

lemma double_exponent_eq:
  assumes "pow2 e \<le> \<bar>x\<bar>" "\<bar>x\<bar> < pow2 (e + 1)" "- 1022 \<le> e"
  shows "double_exponent x = e"
proof -
  have pos: "0 < \<bar>x\<bar>" using assms(1) pow2_pos[of e] by linarith
  have lo: "real_of_int e \<le> log 2 \<bar>x\<bar>"
    using assms(1) pos by (simp add: pow2_powr le_log_iff)
  have hi: "log 2 \<bar>x\<bar> < real_of_int e + 1"
    using assms(2) pos by (simp add: pow2_powr log_less_iff)
  have "\<lfloor>log 2 \<bar>x\<bar>\<rfloor> = e" using lo hi by linarith
  then show ?thesis using assms(3) by (simp add: double_exponent_def)
qed

lemma double_round_eval:
  assumes "pow2 e \<le> \<bar>x\<bar>" "\<bar>x\<bar> < pow2 (e + 1)" "- 1022 \<le> e"
  shows "double_round x = of_int (round_half_even (x / pow2 (e - 52))) * pow2 (e - 52)"
proof -
  have "x \<noteq> 0" using assms(1) pow2_pos[of e] by auto
  then show ?thesis
    using double_exponent_eq[OF assms] by (simp add: double_round_def Let_def)
qed

lemma double_round_0: "double_round 0 = 0"
  by (simp add: double_round_def)

lemma double_round_1: "double_round 1 = 1"
  using double_round_eval[of 0 1] by (simp add: pow2_def round_half_even_def)

lemma double_round_10: "double_round 10 = 10"
  using double_round_eval[of 3 10] by (simp add: pow2_def round_half_even_def)

lemma double_round_100: "double_round 100 = 100"
  using double_round_eval[of 6 100] by (simp add: pow2_def round_half_even_def)

subsection \<open>The segment builder on binary64 floats\<close>

text \<open>Without rounding, the builder on rounded arithmetic is the builder above.\<close>

lemma foldl_sum_squares:
  "foldl (\<lambda>s p. s + p * p) a xs = a + sum_list (map (\<lambda>p. p * p) xs)" for a :: real
  by (induction xs arbitrary: a) (auto simp: algebra_simps)

lemma foldl_sum: "foldl (\<lambda>s l. s + l) a xs = a + sum_list xs" for a :: real
  by (induction xs arbitrary: a) (auto simp: algebra_simps)

lemma allocate_times_rounded_exact:
  "allocate_times_rounded (\<lambda>x. x) tot dur c tms ls = allocate_times tot dur c tms ls"
  by (induction ls arbitrary: c tms) (auto simp: Let_def split: sum.splits)

lemma linspace_rounded_exact: "linspace_rounded (\<lambda>x. x) a b k = linspace a b k"
proof -
  have "(if (b - a) / real (nat k - 1) = 0
          then real i / real (nat k - 1) * (b - a) + a
          else real i * ((b - a) / real (nat k - 1)) + a) =
        a + real i * ((b - a) / real (nat k - 1))" for i
    by auto
  then show ?thesis
    by (simp add: linspace_rounded_def linspace_def Let_def add.commute)
qed

lemma build_segments_rounded_exact:
  "build_segments_rounded (\<lambda>x. x) f = build_segments f"
proof -
  have l: "leg_lengths_rounded (\<lambda>x. x) f = leg_lengths f"
    by (simp add: leg_lengths_rounded_def leg_lengths_def linalg_norm_rounded_def
          linalg_norm_def arr_sub_rounded_def arr_sub_def foldl_sum_squares)
  have s: "sum_rounded (\<lambda>x. x) ls = sum_list ls" for ls
    by (simp add: sum_rounded_def foldl_sum)
  have "compute_segment_times_rounded (\<lambda>x. x) f = compute_segment_times f"
    by (simp add: compute_segment_times_rounded_def compute_segment_times_def l s Let_def
          allocate_times_rounded_exact linspace_rounded_exact)
  then show ?thesis by (simp add: build_segments_rounded_def build_segments_def)
qed

lemma drift_duration:
  "double_round (8106479329266893 / 9007199254740992 - 5404319552844595 / 18014398509481984)
     = 5404319552844596 / 9007199254740992"
  using double_round_eval[of "-1"
      "8106479329266893 / 9007199254740992 - 5404319552844595 / 18014398509481984"]
  by (simp add: pow2_def round_half_even_def)

lemma drift_share:
  "double_round (double_round (10 / 10) * (5404319552844596 / 9007199254740992))
     = 5404319552844596 / 9007199254740992"
  using double_round_eval[of "-1" "5404319552844596 / 9007199254740992"]
  by (simp add: pow2_def round_half_even_def double_round_1)

lemma drift_cumulative:
  "double_round (5404319552844595 / 18014398509481984 + 5404319552844596 / 9007199254740992)
     = 8106479329266894 / 9007199254740992"
  using double_round_eval[of "-1"
      "5404319552844595 / 18014398509481984 + 5404319552844596 / 9007199254740992"]
  by (simp add: pow2_def round_half_even_def)

lemma sqrt_100: "sqrt 100 = 10"
  using real_sqrt_abs[of 10] by simp

lemma drift_lengths: "leg_lengths_rounded double_round drift_mission = [10, 0]"
  by (simp add: leg_lengths_rounded_def drift_mission_def Let_def is_3d_def waypoint_2d_def
        to_array_def arr_sub_rounded_def linalg_norm_rounded_def upt_2
        double_round_0 double_round_10 double_round_100 sqrt_100)

lemma drift_total: "sum_rounded double_round [10, 0] = 10"
  by (simp add: sum_rounded_def double_round_10)

lemma drift_allocate:
  "allocate_times_rounded double_round 10 (5404319552844596 / 9007199254740992)
     (5404319552844595 / 18014398509481984) [5404319552844595 / 18014398509481984] [10]
   = Inr [5404319552844595 / 18014398509481984, 8106479329266894 / 9007199254740992]"
proof -
  have "fdiv 10 10 = Inr (10 / 10)" by (simp add: fdiv_def)
  then show ?thesis
    by (simp only: allocate_times_rounded.simps sum.case Let_def drift_share drift_cumulative
          append.simps)
qed

lemma drift_times:
  "compute_segment_times_rounded double_round drift_mission =
     Inr [5404319552844595 / 18014398509481984, 8106479329266894 / 9007199254740992,
          8106479329266893 / 9007199254740992]"
proof -
  have a: "mission_t_start drift_mission = 5404319552844595 / 18014398509481984"
    and b: "mission_t_end drift_mission = 8106479329266893 / 9007199254740992"
    by (simp_all add: drift_mission_def)
  have bl: "butlast [10, 0::real] = [10]" by simp
  have ne: "(10::real) \<noteq> 0" by simp
  show ?thesis
    unfolding compute_segment_times_rounded_def Let_def drift_lengths drift_total a b
      drift_duration bl drift_allocate
    using ne by simp
qed

text \<open>
  Claim C3 fails on the code. For the valid mission with waypoints (0, 0), (10, 0), (10, 0)
  and the window from 0.3 to 0.9, the builder on binary64 floats returns the boundary times
  0.3, 0.9000000000000001 and 0.9: the duration 0.9 - 0.3 rounds up to 0.6000000000000001
  and the sum 0.3 + 0.6000000000000001 rounds up past 0.9, so the last segment starts
  after it ends.
\<close>

theorem build_segments_drift:
  "valid_flight drift_mission \<and>
   build_segments_rounded double_round drift_mission =
     Inr [\<lparr>seg_start = waypoint_2d 0 0, seg_end = waypoint_2d 10 0,
           t_start = 5404319552844595 / 18014398509481984,
           t_end = 8106479329266894 / 9007199254740992, flight_id = ''D''\<rparr>,
          \<lparr>seg_start = waypoint_2d 10 0, seg_end = waypoint_2d 10 0,
           t_start = 8106479329266894 / 9007199254740992,
           t_end = 8106479329266893 / 9007199254740992, flight_id = ''D''\<rparr>] \<and>
   (8106479329266893 / 9007199254740992 :: real) < 8106479329266894 / 9007199254740992"
proof -
  have v: "valid_flight drift_mission"
    by (simp add: valid_flight_def drift_mission_def)
  have w: "waypoints drift_mission = [waypoint_2d 0 0, waypoint_2d 10 0, waypoint_2d 10 0]"
    "flight_ident drift_mission = ''D''"
    by (simp_all add: drift_mission_def)
  have "build_segments_rounded double_round drift_mission =
     Inr [\<lparr>seg_start = waypoint_2d 0 0, seg_end = waypoint_2d 10 0,
           t_start = 5404319552844595 / 18014398509481984,
           t_end = 8106479329266894 / 9007199254740992, flight_id = ''D''\<rparr>,
          \<lparr>seg_start = waypoint_2d 10 0, seg_end = waypoint_2d 10 0,
           t_start = 8106479329266894 / 9007199254740992,
           t_end = 8106479329266893 / 9007199254740992, flight_id = ''D''\<rparr>]"
    by (simp add: build_segments_rounded_def drift_times w upt_2)
  then show ?thesis using v by simp
qed

end
